theory Spec2Isabelle
  imports Complex_Main "HOL-Library.AList"
begin

section \<open>Python values\<close>

text \<open>
  The program is \<^verbatim>\<open>ver8.py\<close>, a data logger. Its samples are Python floats. A float
  is NaN, one of the two infinities, or a finite number, which is a \<^typ>\<open>real\<close>; the two
  zeros are one value. In the outlier filter and in the summary of an experiment the
  arithmetic on finite floats is exact. In the moving average, whose outputs are
  compared with the data, every sum and every quotient is rounded to binary64.
\<close>

datatype pyfloat = NaN | PInf | NInf | Fin real

text \<open>The exceptions the modelled code can raise.\<close>

datatype error = StatisticsError | AttributeError | ZeroDivisionError | KeyError | ValueError

text \<open>
  \<^verbatim>\<open>xs[i:]\<close> and \<^verbatim>\<open>xs[i:j]\<close>: a negative bound counts from the end, and every bound is
  clamped to the list.
\<close>

definition slice_bound :: "nat \<Rightarrow> int \<Rightarrow> nat" where
  "slice_bound n i = (if i < 0 then nat (max (int n + i) 0) else nat (min i (int n)))"

definition py_slice_from :: "'a list \<Rightarrow> int \<Rightarrow> 'a list" where
  "py_slice_from xs i = drop (slice_bound (length xs) i) xs"

definition py_slice :: "'a list \<Rightarrow> int \<Rightarrow> int \<Rightarrow> 'a list" where
  "py_slice xs i j =
     (let s = slice_bound (length xs) i; e = slice_bound (length xs) j
      in take (e - s) (drop s xs))"

text \<open>
  \<^verbatim>\<open>a / b\<close> with an integer count as divisor, in exact arithmetic: the mean of the
  summary that \<^verbatim>\<open>stop_experiment\<close> logs.
\<close>

definition py_truediv :: "real \<Rightarrow> nat \<Rightarrow> error + real" where
  "py_truediv a n = (if n = 0 then Inl ZeroDivisionError else Inr (a / real n))"

text \<open>\<^verbatim>\<open>math.hypot\<close>.\<close>

definition hypot :: "real \<Rightarrow> real \<Rightarrow> real" where
  "hypot dx dy = sqrt (dx\<^sup>2 + dy\<^sup>2)"

subsection \<open>Differences and comparisons of floats\<close>

text \<open>
  \<^verbatim>\<open>a - b\<close>, \<^verbatim>\<open>abs(a)\<close> and \<^verbatim>\<open>a > b\<close> as the filter uses them: exact on finite
  floats, and as IEEE 754 has them on NaN and the infinities (a comparison with NaN
  is false, the difference of two equal infinities is NaN).
\<close>

fun py_sub :: "pyfloat \<Rightarrow> pyfloat \<Rightarrow> pyfloat" where
  "py_sub (Fin a) (Fin b) = Fin (a - b)"
| "py_sub NaN b = NaN"
| "py_sub a NaN = NaN"
| "py_sub PInf PInf = NaN"
| "py_sub NInf NInf = NaN"
| "py_sub PInf b = PInf"
| "py_sub NInf b = NInf"
| "py_sub a PInf = NInf"
| "py_sub a NInf = PInf"

fun py_abs :: "pyfloat \<Rightarrow> pyfloat" where
  "py_abs (Fin a) = Fin \<bar>a\<bar>"
| "py_abs NaN = NaN"
| "py_abs PInf = PInf"
| "py_abs NInf = PInf"

fun py_gt :: "pyfloat \<Rightarrow> pyfloat \<Rightarrow> bool" where
  "py_gt (Fin a) (Fin b) = (a > b)"
| "py_gt NaN b = False"
| "py_gt a NaN = False"
| "py_gt PInf PInf = False"
| "py_gt PInf b = True"
| "py_gt a PInf = False"
| "py_gt NInf b = False"
| "py_gt a NInf = True"

subsection \<open>Rounded sums and quotients\<close>

text \<open>
  \<open>fl\<close> rounds a real number to binary64: to the nearest multiple of the unit of its
  binade, the binades below \<open>-1022\<close> sharing one unit (the subnormal numbers), a tie
  going to the even multiple, and a result of magnitude \<open>2 ^ 1024\<close> or more being an
  infinity. \<open>py_add\<close> is \<^verbatim>\<open>a + b\<close> on floats. \<open>py_sum\<close> is \<^verbatim>\<open>sum(xs)\<close> on a list of floats
  as CPython 3.11 computes it: from 0 on, left to right, every sum rounded.
  \<open>float_quot\<close> is the quotient of a float by a positive count (the length of a list,
  which is a float without rounding), \<open>float_truediv\<close> the operation \<^verbatim>\<open>a / n\<close>, which
  raises on the count 0.
\<close>

definition round_half_even :: "real \<Rightarrow> int" where
  "round_half_even x =
     (let f = \<lfloor>x\<rfloor>; d = x - of_int f
      in if d < 1 / 2 then f else if 1 / 2 < d then f + 1 else if even f then f else f + 1)"

definition binade :: "real \<Rightarrow> int" where
  "binade x = max \<lfloor>log 2 \<bar>x\<bar>\<rfloor> (- 1022)"

definition fl :: "real \<Rightarrow> pyfloat" where
  "fl x =
     (if x = 0 then Fin 0
      else
        let u = 2 powi (binade x - 52); y = of_int (round_half_even (x / u)) * u
        in if 2 ^ 1024 \<le> y then PInf else if y \<le> - (2 ^ 1024) then NInf else Fin y)"

fun py_add :: "pyfloat \<Rightarrow> pyfloat \<Rightarrow> pyfloat" where
  "py_add (Fin a) (Fin b) = fl (a + b)"
| "py_add NaN b = NaN"
| "py_add a NaN = NaN"
| "py_add PInf NInf = NaN"
| "py_add NInf PInf = NaN"
| "py_add PInf b = PInf"
| "py_add NInf b = NInf"
| "py_add a PInf = PInf"
| "py_add a NInf = NInf"

definition py_sum :: "pyfloat list \<Rightarrow> pyfloat" where
  "py_sum xs = foldl py_add (Fin 0) xs"

definition float_quot :: "pyfloat \<Rightarrow> nat \<Rightarrow> pyfloat" where
  "float_quot a n = (case a of Fin x \<Rightarrow> fl (x / real n) | NaN \<Rightarrow> NaN | PInf \<Rightarrow> PInf | NInf \<Rightarrow> NInf)"

definition float_truediv :: "pyfloat \<Rightarrow> nat \<Rightarrow> error + pyfloat" where
  "float_truediv a n = (if n = 0 then Inl ZeroDivisionError else Inr (float_quot a n))"

subsection \<open>The statistics module\<close>

text \<open>
  \<^verbatim>\<open>statistics.mean\<close> and \<^verbatim>\<open>statistics.pstdev\<close>, as the library of Python 3.11 has
  them. Both raise \<^verbatim>\<open>StatisticsError\<close> on empty data. On finite data \<^verbatim>\<open>pstdev\<close> is the
  square root of the population variance (the divisor is the number of data points).
  On data with a NaN or an infinity in them, \<^verbatim>\<open>mean\<close> returns the sum of those special
  values (an infinity divided by the count is that infinity), and \<^verbatim>\<open>pstdev\<close> raises
  \<^verbatim>\<open>AttributeError\<close>: it asks the float sum of squares for its numerator. When
  \<^verbatim>\<open>pstdev\<close> returns, its result is a finite float. \<open>finite_values\<close> are the numbers of
  a list of finite floats.
\<close>

fun finite_values :: "pyfloat list \<Rightarrow> real list option" where
  "finite_values [] = Some []"
| "finite_values (Fin x # vs) = map_option ((#) x) (finite_values vs)"
| "finite_values (v # vs) = None"

definition special_total :: "pyfloat list \<Rightarrow> pyfloat" where
  "special_total xs =
     (if NaN \<in> set xs \<or> (PInf \<in> set xs \<and> NInf \<in> set xs) then NaN
      else if PInf \<in> set xs then PInf else NInf)"

definition statistics_mean :: "pyfloat list \<Rightarrow> error + pyfloat" where
  "statistics_mean xs =
     (if xs = [] then Inl StatisticsError
      else
        case finite_values xs of
          Some rs \<Rightarrow> Inr (Fin (sum_list rs / real (length rs)))
        | None \<Rightarrow> Inr (special_total xs))"

definition statistics_pstdev :: "pyfloat list \<Rightarrow> error + real" where
  "statistics_pstdev xs =
     (if xs = [] then Inl StatisticsError
      else
        case finite_values xs of
          Some rs \<Rightarrow>
            (let mu = sum_list rs / real (length rs)
             in Inr (sqrt (sum_list (map (\<lambda>x. (x - mu)\<^sup>2) rs) / real (length rs))))
        | None \<Rightarrow> Inl AttributeError)"

section \<open>Filtering and smoothing\<close>

text \<open>
  \<^verbatim>\<open>sigma_filter_last(values, window_size=10, k=3.0)\<close>, lines 28 to 56. The factor \<open>k\<close>
  is a finite float.
\<close>

definition sigma_filter_last :: "pyfloat list \<Rightarrow> int \<Rightarrow> real \<Rightarrow> error + pyfloat" where
  "sigma_filter_last values window_size k =
     (if values = [] then Inr NaN
      else
        let w = min window_size (int (length values));
            window = py_slice_from values (- w)
        in if length window < 2 then Inr (last values)
           else
             case statistics_mean window of
               Inl e \<Rightarrow> Inl e
             | Inr mean \<Rightarrow>
                 (case statistics_pstdev window of
                    Inl e \<Rightarrow> Inl e
                  | Inr std \<Rightarrow>
                      if std = 0 then Inr (last values)
                      else
                        let x = last values
                        in if py_gt (py_abs (py_sub x mean)) (Fin (k * std)) then Inr mean
                           else Inr x))"

text \<open>
  \<^verbatim>\<open>moving_average(data, window_size=5)\<close>, lines 59 to 70. \<open>window_avg\<close> is the body of
  the loop at index \<open>i\<close>, \<open>moving_average_loop\<close> the loop over \<^verbatim>\<open>range(len(data))\<close> with
  the list \<^verbatim>\<open>result\<close> as accumulator.
\<close>

definition window_avg :: "pyfloat list \<Rightarrow> int \<Rightarrow> nat \<Rightarrow> error + pyfloat" where
  "window_avg data window_size i =
     (let start = max 0 (int i - window_size div 2);
          end' = min (int (length data)) (int i + window_size div 2 + 1);
          window = py_slice data start end'
      in float_truediv (py_sum window) (length window))"

fun moving_average_loop ::
  "pyfloat list \<Rightarrow> int \<Rightarrow> nat list \<Rightarrow> pyfloat list \<Rightarrow> error + pyfloat list" where
  "moving_average_loop data window_size [] result = Inr result"
| "moving_average_loop data window_size (i # is) result =
     (case window_avg data window_size i of
        Inl e \<Rightarrow> Inl e
      | Inr a \<Rightarrow> moving_average_loop data window_size is (result @ [a]))"

definition moving_average :: "pyfloat list \<Rightarrow> int \<Rightarrow> error + pyfloat list" where
  "moving_average data window_size =
     (if length data \<le> 1 then Inr data
      else moving_average_loop data window_size [0..<length data] [])"

section \<open>The hover query of the plot\<close>

text \<open>
  \<^verbatim>\<open>on_motion\<close>, lines 635 to 662. An element of \<^verbatim>\<open>all_points\<close> is the tuple
  \<^verbatim>\<open>(x, y, t, v, exp_num)\<close>: the projected coordinates, the time offset, the value and
  the experiment. \<open>on_motion_loop\<close> is the loop with its two variables \<^verbatim>\<open>closest\<close> and
  \<^verbatim>\<open>min_dist\<close>; \<open>on_motion\<close> returns the point that is highlighted, or \<open>None\<close> when
  the label falls back to its hint.
\<close>

type_synonym plot_point = "real \<times> real \<times> real \<times> real \<times> int"

definition point_dist :: "real \<Rightarrow> real \<Rightarrow> plot_point \<Rightarrow> real" where
  "point_dist ex ey p = (case p of (x, y, t_off, val, exp_num) \<Rightarrow> hypot (ex - x) (ey - y))"

fun on_motion_loop ::
  "real \<Rightarrow> real \<Rightarrow> plot_point list \<Rightarrow> plot_point option \<Rightarrow> real \<Rightarrow> plot_point option" where
  "on_motion_loop ex ey [] closest min_dist = closest"
| "on_motion_loop ex ey (p # ps) closest min_dist =
     (let dist = point_dist ex ey p
      in if dist < min_dist then on_motion_loop ex ey ps (Some p) dist
         else on_motion_loop ex ey ps closest min_dist)"

definition on_motion :: "real \<Rightarrow> real \<Rightarrow> plot_point list \<Rightarrow> plot_point option" where
  "on_motion ex ey all_points = on_motion_loop ex ey all_points None 15"

section \<open>The application state\<close>

text \<open>
  A Python \<^verbatim>\<open>str\<close> is the list of its code points. \<^verbatim>\<open>self.experiments\<close> is a dict
  from experiment numbers to lists of \<^verbatim>\<open>(timestamp, value)\<close>; it is modelled as an
  association list in insertion order, \<open>AList.update\<close> being the assignment to a key;
  the keys of a dict are distinct, and so are those of the lists the operations build.
  The text widget \<^verbatim>\<open>log_text\<close> is the list of the entries inserted into it; the other
  widgets carry no data of the program and are left out.
\<close>

type_synonym pystr = "nat list"

type_synonym sample = "real \<times> real"

type_synonym store = "(int \<times> sample list) list"

datatype log_entry =
    LogRule
  | LogStarted int
  | LogTime
  | LogFinished int
  | LogSummary nat real
  | LogLoadedFrom
  | LogCount int nat

record app_state =
  is_recording :: bool
  data_queue :: "sample list"
  experiments :: store
  current_experiment :: int
  serial_port :: bool
  log_text :: "log_entry list"

text \<open>The state \<^verbatim>\<open>__init__\<close> sets up, lines 81 to 85.\<close>

definition init_state :: app_state where
  "init_state =
     \<lparr>is_recording = False, data_queue = [], experiments = [], current_experiment = 1,
      serial_port = False, log_text = []\<rparr>"

text \<open>\<^verbatim>\<open>d.get(k, [])\<close>, which is also what \<^verbatim>\<open>d.setdefault(k, [])\<close> returns.\<close>

definition get_or_empty :: "store \<Rightarrow> int \<Rightarrow> sample list" where
  "get_or_empty d k = (case map_of d k of None \<Rightarrow> [] | Some xs \<Rightarrow> xs)"

datatype message = ShowError | ShowWarning | ShowInfo

subsection \<open>Starting and stopping an experiment\<close>

text \<open>
  \<^verbatim>\<open>start_experiment\<close>, lines 221 to 260. What it reads from outside the state is its
  input: the mode and the port chosen in the window, whether \<^verbatim>\<open>import serial\<close> succeeds
  and whether the port opens. The result is the message box shown, if any, and the
  state. The worker thread it starts is \<open>collect_step\<close> below, one iteration at a time.
\<close>

datatype mode = Simulator | Real

record start_input =
  mode_var :: mode
  port_var :: pystr
  have_pyserial :: bool
  port_opens :: bool

definition start_experiment :: "start_input \<Rightarrow> app_state \<Rightarrow> message option \<times> app_state" where
  "start_experiment inp st =
     (let st1 =
            (if map_of (experiments st) (current_experiment st) = None
             then st\<lparr>experiments := AList.update (current_experiment st) [] (experiments st)\<rparr>
             else st)
      in if mode_var inp = Real \<and> port_var inp = [] then (Some ShowError, st1)
         else if mode_var inp = Real \<and> \<not> have_pyserial inp then (Some ShowError, st1)
         else if mode_var inp = Real \<and> \<not> port_opens inp then (Some ShowError, st1)
         else
           (None,
            st1\<lparr>serial_port := (if mode_var inp = Real then True else serial_port st1),
                is_recording := True,
                log_text := log_text st1
                  @ [LogRule, LogStarted (current_experiment st1), LogTime, LogRule]\<rparr>))"

text \<open>
  \<^verbatim>\<open>stop_experiment\<close>, lines 262 to 292. The only operation in it that can raise is the
  division; an exception would leave the callback after the flag and the port were
  reset, so the error comes with the state reached.
\<close>

definition stop_experiment :: "app_state \<Rightarrow> error \<times> app_state + app_state" where
  "stop_experiment st =
     (let st1 = st\<lparr>is_recording := False, serial_port := False\<rparr>;
          data = get_or_empty (experiments st1) (current_experiment st1)
      in if data \<noteq> []
         then
           (let values = map snd data; count = length values
            in case py_truediv (sum_list values) count of
                 Inl e \<Rightarrow> Inl (e, st1)
               | Inr mean_val \<Rightarrow>
                   Inr (st1\<lparr>log_text := log_text st1
                              @ [LogFinished (current_experiment st1),
                                 LogSummary count mean_val, LogRule],
                            current_experiment := current_experiment st1 + 1\<rparr>))
         else Inr (st1\<lparr>current_experiment := current_experiment st1 + 1\<rparr>))"

subsection \<open>Collecting samples\<close>

text \<open>
  One iteration of the loop of \<^verbatim>\<open>collect_data\<close>, lines 299 to 333. Reading the source
  is abstracted to its outcome: nothing is waiting on the port, the line read does not
  parse as a number, or a value was obtained (from the simulator or from the port).
  The store of the model holds finite values, and so a value read is a finite float.
  From there, lines 319 to 328 are modelled as written. An exception is caught by the
  \<^verbatim>\<open>except Exception\<close> of the loop and printed: it is returned beside the unchanged
  state. On finite values the filter returns a finite float (lemma
  \<open>sigma_filter_last_finite\<close>), so the last branch, which keeps the state, is never
  taken.
\<close>

datatype reading = NoData | BadLine | Value real

definition collect_step :: "real \<Rightarrow> reading \<Rightarrow> app_state \<Rightarrow> error option \<times> app_state" where
  "collect_step timestamp r st =
     (case r of
        NoData \<Rightarrow> (None, st)
      | BadLine \<Rightarrow> (None, st)
      | Value v \<Rightarrow>
          (case map_of (experiments st) (current_experiment st) of
             None \<Rightarrow> (Some KeyError, st)
           | Some exp_list \<Rightarrow>
               (let raw_values = map (\<lambda>s. Fin (snd s)) exp_list @ [Fin v]
                in case sigma_filter_last raw_values 10 3 of
                     Inl e \<Rightarrow> (Some e, st)
                   | Inr (Fin filtered_value) \<Rightarrow>
                       (None,
                        st\<lparr>experiments :=
                              AList.update (current_experiment st)
                                (exp_list @ [(timestamp, filtered_value)]) (experiments st),
                            data_queue := data_queue st @ [(timestamp, filtered_value)]\<rparr>)
                   | Inr other \<Rightarrow> (None, st))))"

subsection \<open>Saving and loading\<close>

text \<open>
  The functions of Python's library that the two operations call on text are
  parameters of the model: \<^verbatim>\<open>int(s)\<close> and \<^verbatim>\<open>float(s)\<close> (\<open>None\<close> when they raise
  \<^verbatim>\<open>ValueError\<close>), the text of an integer in an f-string, the text \<^verbatim>\<open>csv.writer\<close> writes
  for a float, and \<^verbatim>\<open>datetime.fromtimestamp(t).strftime(...)\<close> (\<open>None\<close> when the time
  stamp is out of the range of dates).
\<close>

record pylib =
  int_of_str :: "pystr \<Rightarrow> int option"
  float_of_str :: "pystr \<Rightarrow> real option"
  str_of_int :: "int \<Rightarrow> pystr"
  str_of_float :: "real \<Rightarrow> pystr"
  strftime :: "real \<Rightarrow> pystr option"

text \<open>
  A CSV file is the list of its rows, a row the list of its fields: \<^verbatim>\<open>csv.writer\<close> and
  \<^verbatim>\<open>csv.reader\<close> are inverse to each other on rows of text. A file dialog is cancelled
  or returns a file. Writing finds the file writable or not. Reading finds the file
  unreadable (\<open>None\<close>) or yields a sequence of items, each a row or a failure of the
  reader (a decoding or CSV error) that ends the reading.
\<close>

datatype 'a chosen = Cancelled | Chosen 'a

datatype csv_item = Row "pystr list" | ReadError

definition csv_header :: "pystr list" where
  "csv_header =
     [[1069, 1082, 1089, 1087, 1077, 1088, 1080, 1084, 1077, 1085, 1090],
      [1042, 1088, 1077, 1084, 1103],
      [1047, 1085, 1072, 1095, 1077, 1085, 1080, 1077],
      [1044, 1072, 1090, 1072, 95, 1080, 95, 1074, 1088, 1077, 1084, 1103]]"

text \<open>
  \<^verbatim>\<open>save_all_data\<close>, lines 371 to 396. \<open>sample_row\<close> is the body of the inner loop,
  \<open>write_samples\<close> the inner loop and \<open>write_experiments\<close> the outer one, over the
  sorted keys; the rows written so far are the accumulator, and \<open>None\<close> is an exception
  (caught at line 395). The label of experiment \<open>n\<close> is the letter of code point 1069
  followed by the text of \<open>n\<close>.
\<close>

definition sample_row :: "pylib \<Rightarrow> int \<Rightarrow> sample \<Rightarrow> pystr list option" where
  "sample_row L exp_num s =
     (case s of (timestamp, v) \<Rightarrow>
        (case strftime L timestamp of
           None \<Rightarrow> None
         | Some dt \<Rightarrow>
             Some [1069 # str_of_int L exp_num, str_of_float L timestamp, str_of_float L v, dt]))"

fun write_samples ::
  "pylib \<Rightarrow> int \<Rightarrow> sample list \<Rightarrow> pystr list list \<Rightarrow> pystr list list option" where
  "write_samples L exp_num [] out = Some out"
| "write_samples L exp_num (s # ss) out =
     (case sample_row L exp_num s of
        None \<Rightarrow> None
      | Some row \<Rightarrow> write_samples L exp_num ss (out @ [row]))"

fun write_experiments ::
  "pylib \<Rightarrow> store \<Rightarrow> int list \<Rightarrow> pystr list list \<Rightarrow> pystr list list option" where
  "write_experiments L d [] out = Some out"
| "write_experiments L d (exp_num # ns) out =
     (case map_of d exp_num of
        None \<Rightarrow> None
      | Some samples \<Rightarrow>
          (case write_samples L exp_num samples out of
             None \<Rightarrow> None
           | Some out' \<Rightarrow> write_experiments L d ns out'))"

datatype save_outcome = NothingToSave | SaveCancelled | SaveFailed | Saved "pystr list list"

definition save_all_data :: "pylib \<Rightarrow> bool chosen \<Rightarrow> app_state \<Rightarrow> save_outcome" where
  "save_all_data L target st =
     (if experiments st = [] then NothingToSave
      else
        case target of
          Cancelled \<Rightarrow> SaveCancelled
        | Chosen writable \<Rightarrow>
            if \<not> writable then SaveFailed
            else
              (case write_experiments L (experiments st) (sort (map fst (experiments st)))
                      [csv_header] of
                 None \<Rightarrow> SaveFailed
               | Some rows \<Rightarrow> Saved rows))"

text \<open>
  \<^verbatim>\<open>open_data\<close>, lines 398 to 435. \<open>lstrip_label\<close> is \<^verbatim>\<open>.lstrip\<close> with the two letters of
  code points 1069 and 1101. \<open>parse_row\<close> is lines 413 to 420: \<open>None\<close> is a row the loop
  skips. \<open>load_row\<close> is the body of the loop on the pair of the dict and the current
  experiment number, \<open>load_rows\<close> the loop, which stops with \<open>False\<close> when the reader
  fails.
\<close>

definition lstrip_label :: "pystr \<Rightarrow> pystr" where
  "lstrip_label s = dropWhile (\<lambda>c. c = 1069 \<or> c = 1101) s"

definition parse_row :: "pylib \<Rightarrow> pystr list \<Rightarrow> (int \<times> real \<times> real) option" where
  "parse_row L row =
     (if length row < 3 then None
      else
        case int_of_str L (lstrip_label (row ! 0)) of
          None \<Rightarrow> None
        | Some exp_num \<Rightarrow>
            (case float_of_str L (row ! 1) of
               None \<Rightarrow> None
             | Some timestamp \<Rightarrow>
                 (case float_of_str L (row ! 2) of
                    None \<Rightarrow> None
                  | Some v \<Rightarrow> Some (exp_num, timestamp, v))))"

definition load_row :: "pylib \<Rightarrow> pystr list \<Rightarrow> store \<times> int \<Rightarrow> store \<times> int" where
  "load_row L row acc =
     (case acc of (d, cur) \<Rightarrow>
        (case parse_row L row of
           None \<Rightarrow> (d, cur)
         | Some (exp_num, timestamp, v) \<Rightarrow>
             (AList.update exp_num (get_or_empty d exp_num @ [(timestamp, v)]) d,
              if exp_num \<ge> cur then exp_num + 1 else cur)))"

fun load_rows :: "pylib \<Rightarrow> csv_item list \<Rightarrow> store \<times> int \<Rightarrow> bool \<times> store \<times> int" where
  "load_rows L [] acc = (True, acc)"
| "load_rows L (ReadError # rest) acc = (False, acc)"
| "load_rows L (Row row # rest) acc = load_rows L rest (load_row L row acc)"

datatype load_outcome = LoadCancelled | LoadFailed | Loaded

definition open_data ::
  "pylib \<Rightarrow> csv_item list option chosen \<Rightarrow> app_state \<Rightarrow> load_outcome \<times> app_state" where
  "open_data L file st =
     (case file of
        Cancelled \<Rightarrow> (LoadCancelled, st)
      | Chosen content \<Rightarrow>
          (let st1 = st\<lparr>experiments := [], current_experiment := 1\<rparr>
           in case content of
                None \<Rightarrow> (LoadFailed, st1)
              | Some items \<Rightarrow>
                  (case load_rows L (case items of [] \<Rightarrow> [] | ReadError # rest \<Rightarrow> items
                                      | Row header # rest \<Rightarrow> rest) ([], 1) of
                     (False, d, cur) \<Rightarrow>
                       (LoadFailed, st1\<lparr>experiments := d, current_experiment := cur\<rparr>)
                   | (True, d, cur) \<Rightarrow>
                       (Loaded,
                        st1\<lparr>experiments := d, current_experiment := cur,
                            log_text := LogLoadedFrom
                              # map (\<lambda>n. LogCount n (length (get_or_empty d n)))
                                  (sort (map fst d))\<rparr>))))"

subsection \<open>A plain instance of the library\<close>

text \<open>
  To evaluate saving and loading on concrete stores, the library is instantiated with
  the texts Python produces on simple values: an integer in decimal digits with a
  minus sign when negative, and a float of integral value as those digits followed by
  \<^verbatim>\<open>.0\<close>. Code points 48 to 57 are the digits, 45 the minus sign and 46 the dot. The
  date text is a fixed word: loading never reads that column.
\<close>

fun digits_of :: "nat \<Rightarrow> pystr" where
  "digits_of n = (if n < 10 then [48 + n] else digits_of (n div 10) @ [48 + n mod 10])"

fun parse_digits :: "pystr \<Rightarrow> nat \<Rightarrow> nat option" where
  "parse_digits [] acc = Some acc"
| "parse_digits (c # cs) acc =
     (if 48 \<le> c \<and> c \<le> 57 then parse_digits cs (10 * acc + (c - 48)) else None)"

definition dec_int :: "int \<Rightarrow> pystr" where
  "dec_int n = (if n < 0 then 45 # digits_of (nat (- n)) else digits_of (nat n))"

definition parse_int :: "pystr \<Rightarrow> int option" where
  "parse_int s =
     (case s of
        [] \<Rightarrow> None
      | c # cs \<Rightarrow>
          if c = 45 then (if cs = [] then None else map_option (\<lambda>n. - int n) (parse_digits cs 0))
          else map_option int (parse_digits s 0))"

definition dec_float :: "real \<Rightarrow> pystr" where
  "dec_float x = dec_int \<lfloor>x\<rfloor> @ [46, 48]"

definition parse_float :: "pystr \<Rightarrow> real option" where
  "parse_float s =
     (if 2 \<le> length s \<and> drop (length s - 2) s = [46, 48]
      then map_option of_int (parse_int (take (length s - 2) s)) else None)"

definition plain_lib :: pylib where
  "plain_lib =
     \<lparr>int_of_str = parse_int, float_of_str = parse_float, str_of_int = dec_int,
      str_of_float = dec_float, strftime = (\<lambda>t. Some [100, 97, 116, 101])\<rparr>"

section \<open>The notions of the specification\<close>

text \<open>
  The specification of the filter, in its own words: the window is the last
  \<open>w = min(window_size, len(history))\<close> values; with fewer than two values in it, or
  with a population standard deviation of zero, the candidate (the last value of the
  history) is returned; otherwise the mean replaces a candidate farther than \<open>k\<close>
  standard deviations from it.
\<close>

definition spec_window :: "real list \<Rightarrow> int \<Rightarrow> real list" where
  "spec_window history window_size =
     (let w = min window_size (int (length history))
      in drop (length history - nat w) history)"

definition pmean :: "real list \<Rightarrow> real" where
  "pmean xs = sum_list xs / real (length xs)"

definition pstd :: "real list \<Rightarrow> real" where
  "pstd xs = sqrt (sum_list (map (\<lambda>x. (x - pmean xs)\<^sup>2) xs) / real (length xs))"

definition spec_filter :: "real list \<Rightarrow> int \<Rightarrow> real \<Rightarrow> real" where
  "spec_filter history window_size k =
     (let window = spec_window history window_size; candidate = last history
      in if 2 \<le> length window \<and> pstd window \<noteq> 0
         then (if \<bar>candidate - pmean window\<bar> > k * pstd window then pmean window else candidate)
         else candidate)"

text \<open>
  The specification of the smoother: at index \<open>i\<close>, the exact arithmetic mean of the values
  at the indices from \<open>max(0, i - window_size div 2)\<close> up to, and without,
  \<open>min(len, i + window_size div 2 + 1)\<close>.
\<close>

definition spec_avg :: "real list \<Rightarrow> int \<Rightarrow> nat \<Rightarrow> real" where
  "spec_avg data window_size i =
     (let a = nat (max 0 (int i - window_size div 2));
          b = nat (min (int (length data)) (int i + window_size div 2 + 1))
      in (\<Sum>j = a..<b. data ! j) / real (b - a))"

text \<open>
  The same window as the code computes its mean: the rounded quotient of the rounded
  sum of the values at those indices by their number.
\<close>

definition float_avg :: "pyfloat list \<Rightarrow> int \<Rightarrow> nat \<Rightarrow> pyfloat" where
  "float_avg data window_size i =
     (let a = nat (max 0 (int i - window_size div 2));
          b = nat (min (int (length data)) (int i + window_size div 2 + 1))
      in float_quot (py_sum (map ((!) data) [a..<b])) (b - a))"

text \<open>A plotted point is drawn at the query coordinates.\<close>

definition drawn_at :: "real \<Rightarrow> real \<Rightarrow> plot_point \<Rightarrow> bool" where
  "drawn_at ex ey p = (fst p = ex \<and> fst (snd p) = ey)"

text \<open>
  A malformed row of a CSV file: fewer than three fields, or a label, a time stamp or
  a value that does not parse. \<open>samples_of L n rows\<close> are the samples that the rows
  labelled \<open>n\<close> hold, in the order of the file; \<open>row_ids\<close> are the labels of the rows
  that parse.
\<close>

definition malformed :: "pylib \<Rightarrow> pystr list \<Rightarrow> bool" where
  "malformed L row \<longleftrightarrow>
     length row < 3 \<or> int_of_str L (lstrip_label (row ! 0)) = None
     \<or> float_of_str L (row ! 1) = None \<or> float_of_str L (row ! 2) = None"

definition row_sample :: "pylib \<Rightarrow> int \<Rightarrow> pystr list \<Rightarrow> sample list" where
  "row_sample L n row =
     (case parse_row L row of
        None \<Rightarrow> []
      | Some (exp_num, timestamp, v) \<Rightarrow> if exp_num = n then [(timestamp, v)] else [])"

definition samples_of :: "pylib \<Rightarrow> int \<Rightarrow> pystr list list \<Rightarrow> sample list" where
  "samples_of L n rows = concat (map (row_sample L n) rows)"

definition row_ids :: "pylib \<Rightarrow> pystr list list \<Rightarrow> int list" where
  "row_ids L rows = map fst (List.map_filter (parse_row L) rows)"

text \<open>
  What saving and loading a store need of the library: the label of every experiment
  number reads back as that number, the text of every time stamp and value reads back
  as that float, and every time stamp has a date. \<open>sample_ok\<close> is the same for one
  sample, \<open>written_row\<close> the row that is then written for it.
\<close>

definition lib_faithful :: "pylib \<Rightarrow> store \<Rightarrow> bool" where
  "lib_faithful L d \<longleftrightarrow>
     (\<forall>(n, ss)\<in>set d.
        int_of_str L (lstrip_label (1069 # str_of_int L n)) = Some n
        \<and> (\<forall>(t, v)\<in>set ss.
              float_of_str L (str_of_float L t) = Some t
              \<and> float_of_str L (str_of_float L v) = Some v
              \<and> strftime L t \<noteq> None))"

definition sample_ok :: "pylib \<Rightarrow> int \<Rightarrow> sample \<Rightarrow> bool" where
  "sample_ok L n s \<longleftrightarrow>
     int_of_str L (lstrip_label (1069 # str_of_int L n)) = Some n
     \<and> float_of_str L (str_of_float L (fst s)) = Some (fst s)
     \<and> float_of_str L (str_of_float L (snd s)) = Some (snd s)
     \<and> strftime L (fst s) \<noteq> None"

definition written_row :: "pylib \<Rightarrow> int \<Rightarrow> sample \<Rightarrow> pystr list" where
  "written_row L n s =
     [1069 # str_of_int L n, str_of_float L (fst s), str_of_float L (snd s),
      (case strftime L (fst s) of None \<Rightarrow> [] | Some dt \<Rightarrow> dt)]"

text \<open>A store of two experiments, the second one recorded first in the dict.\<close>

definition saved_store :: store where
  "saved_store = [(2, [(2, 3)]), (1, [(0, 5), (1, 7)])]"

section \<open>The outlier filter\<close>

lemma slice_from_last:
  assumes "1 \<le> w" "w \<le> int (length xs)"
  shows "py_slice_from xs (- w) = drop (length xs - nat w) xs"
proof -
  have "slice_bound (length xs) (- w) = length xs - nat w"
    using assms by (simp add: slice_bound_def nat_diff_distrib')
  then show ?thesis by (simp add: py_slice_from_def)
qed

lemma finite_values_Fin: "finite_values (map Fin xs) = Some xs"
  by (induction xs) simp_all

text \<open>
  The errors of the filter: it raises exactly when its window holds two values or
  more, one of them not finite, and the exception is that of \<open>statistics_pstdev\<close>.
\<close>

lemma sigma_filter_last_error:
  "sigma_filter_last values window_size k = Inl e \<longleftrightarrow>
     e = AttributeError
     \<and> 2 \<le> length (py_slice_from values (- min window_size (int (length values))))
     \<and> finite_values (py_slice_from values (- min window_size (int (length values)))) = None"
  by (auto simp: sigma_filter_last_def statistics_mean_def statistics_pstdev_def Let_def
      py_slice_from_def split: option.splits)

lemma sigma_filter_last_finite:
  assumes "xs \<noteq> []"
  shows "\<exists>r. sigma_filter_last (map Fin xs) window_size k = Inr (Fin r)"
proof -
  obtain ys where
    win: "py_slice_from (map Fin xs) (- min window_size (int (length xs))) = map Fin ys"
    unfolding py_slice_from_def by (metis drop_map)
  have lst: "last (map Fin xs) = Fin (last xs)" using assms by (simp add: last_map)
  show ?thesis
    using assms lst
    by (auto simp: sigma_filter_last_def statistics_mean_def statistics_pstdev_def Let_def
        win finite_values_Fin)
qed

text \<open>
  For a window size of at least 1 the code is the specification of the filter: on
  every non-empty history of finite floats it returns what \<open>spec_filter\<close> describes.
\<close>

lemma sigma_filter_last_windowed:
  assumes "xs \<noteq> []" "1 \<le> window_size"
  shows "sigma_filter_last (map Fin xs) window_size k
         = Inr (Fin (spec_filter xs window_size k))"
proof -
  define w where "w = min window_size (int (length xs))"
  have w: "1 \<le> w" "w \<le> int (length (map Fin xs))"
    using assms by (auto simp: w_def Suc_le_eq)
  have win: "py_slice_from (map Fin xs) (- min window_size (int (length xs)))
             = map Fin (spec_window xs window_size)"
    using slice_from_last [OF w] by (simp add: spec_window_def w_def drop_map)
  have lst: "last (map Fin xs) = Fin (last xs)" using assms(1) by (simp add: last_map)
  show ?thesis
    using assms(1) lst
    by (auto simp: sigma_filter_last_def spec_filter_def Let_def win
        statistics_mean_def statistics_pstdev_def pmean_def pstd_def finite_values_Fin)
qed

lemma sqrt_3_less: "sqrt 3 < 3"
  by (rule real_less_lsqrt) simp_all

text \<open>
  C1. For every non-empty history, the filter works on the window of the last
  \<open>w = min(window_size, len(history))\<close> values and returns the candidate when that
  window has fewer than two values. At \<open>window_size = 0\<close> the window of the
  specification is empty, so the candidate 4 is to be returned; the code evaluates
  \<^verbatim>\<open>values[-0:]\<close>, which is the whole history, and returns its mean 1.
\<close>

theorem sigma_filter_last_window_zero:
  "sigma_filter_last [Fin 0, Fin 0, Fin 0, Fin 4] 0 1 = Inr (Fin 1)
   \<and> spec_filter [0, 0, 0, 4] 0 1 = 4"
  using sqrt_3_less
  by (simp add: sigma_filter_last_def spec_filter_def spec_window_def py_slice_from_def
      slice_bound_def statistics_mean_def statistics_pstdev_def power2_eq_square)

lemma sqrt_1125_ge: "25 \<le> sqrt 1125"
  by (rule real_le_rsqrt) simp

lemma filter_example_value:
  "sigma_filter_last [Fin 10, Fin 10, Fin 10, Fin 10, Fin 10, Fin 100] 10 3 = Inr (Fin 100)"
  using sqrt_1125_ge
  by (simp add: sigma_filter_last_def py_slice_from_def slice_bound_def
      statistics_mean_def statistics_pstdev_def power2_eq_square)

text \<open>
  C2, as amended. On the history 10, 10, 10, 10, 10, 100 with window size 10 and
  \<open>k = 3\<close> the window is the whole history, its mean is 25 and its population standard
  deviation is the square root of 1125; the candidate 100 lies 75 from the mean, which
  is not more than three standard deviations, so the filter returns 100 unchanged.
\<close>

theorem sigma_filter_last_example:
  "sigma_filter_last [Fin 10, Fin 10, Fin 10, Fin 10, Fin 10, Fin 100] 10 3 = Inr (Fin 100)
   \<and> statistics_mean [Fin 10, Fin 10, Fin 10, Fin 10, Fin 10, Fin 100] = Inr (Fin 25)
   \<and> statistics_pstdev [Fin 10, Fin 10, Fin 10, Fin 10, Fin 10, Fin 100] = Inr (sqrt 1125)
   \<and> \<bar>100 - 25\<bar> \<le> 3 * sqrt 1125"
  using filter_example_value sqrt_1125_ge
  by (simp add: statistics_mean_def statistics_pstdev_def power2_eq_square)

text \<open>
  C2, as stated, fails: the mean of the window is 25, and the filter does not return
  it.
\<close>

theorem sigma_filter_last_example_not_mean:
  "statistics_mean [Fin 10, Fin 10, Fin 10, Fin 10, Fin 10, Fin 100] = Inr (Fin 25)
   \<and> sigma_filter_last [Fin 10, Fin 10, Fin 10, Fin 10, Fin 10, Fin 100] 10 3
       \<noteq> Inr (Fin 25)"
  using filter_example_value by (simp add: statistics_mean_def)

text \<open>
  C10, as amended. On the empty history \<open>sigma_filter_last\<close> returns NaN, and on a
  history of finite floats it returns a value, whatever the window size and the
  factor \<open>k\<close> are. It is not total on all lists of floats: it raises, and then
  \<^verbatim>\<open>AttributeError\<close>, exactly when its window (the slice \<^verbatim>\<open>values[-w:]\<close>) holds two
  values or more and one of them is NaN or an infinity.
\<close>

theorem sigma_filter_last_total:
  "sigma_filter_last [] window_size k = Inr NaN
   \<and> (\<exists>r. sigma_filter_last (map Fin xs) window_size k = Inr r)
   \<and> (sigma_filter_last values window_size k = Inl e \<longleftrightarrow>
        e = AttributeError
        \<and> 2 \<le> length (py_slice_from values (- min window_size (int (length values))))
        \<and> finite_values (py_slice_from values (- min window_size (int (length values))))
            = None)"
proof (intro conjI)
  show "sigma_filter_last [] window_size k = Inr NaN"
    by (simp add: sigma_filter_last_def)
  show "\<exists>r. sigma_filter_last (map Fin xs) window_size k = Inr r"
  proof (cases "xs = []")
    case True
    then show ?thesis by (simp add: sigma_filter_last_def)
  next
    case False
    then show ?thesis using sigma_filter_last_finite [of xs window_size k] by blast
  qed
  show "sigma_filter_last values window_size k = Inl e \<longleftrightarrow>
        e = AttributeError
        \<and> 2 \<le> length (py_slice_from values (- min window_size (int (length values))))
        \<and> finite_values (py_slice_from values (- min window_size (int (length values))))
            = None"
    by (rule sigma_filter_last_error)
qed

text \<open>
  C10, as stated, fails: on the history 1, infinity the window holds both values and
  the filter raises.
\<close>

theorem sigma_filter_last_infinity_raises:
  "sigma_filter_last [Fin 1, PInf] 10 3 = Inl AttributeError"
  by (simp add: sigma_filter_last_def py_slice_from_def slice_bound_def
      statistics_mean_def statistics_pstdev_def special_total_def)

section \<open>The moving average\<close>

lemma py_slice_inner:
  assumes "a \<le> b" "b \<le> length xs"
  shows "py_slice xs (int a) (int b) = take (b - a) (drop a xs)"
  using assms by (simp add: py_slice_def slice_bound_def min_def)

lemma take_drop_nth:
  assumes "b \<le> length xs"
  shows "take (b - a) (drop a xs) = map ((!) xs) [a..<b]"
proof (rule nth_equalityI)
  show "length (take (b - a) (drop a xs)) = length (map ((!) xs) [a..<b])"
    using assms by simp
next
  fix i
  assume "i < length (take (b - a) (drop a xs))"
  then have "i < b - a" by simp
  then show "take (b - a) (drop a xs) ! i = map ((!) xs) [a..<b] ! i"
    using assms by (simp add: nth_map_upt)
qed

lemma window_bounds:
  assumes "1 \<le> window_size" "i < length data"
  defines "a \<equiv> nat (max 0 (int i - window_size div 2))"
    and "b \<equiv> nat (min (int (length data)) (int i + window_size div 2 + 1))"
  shows "a \<le> i" "i < b" "b \<le> length data"
    "max 0 (int i - window_size div 2) = int a"
    "min (int (length data)) (int i + window_size div 2 + 1) = int b"
proof -
  define h where "h = window_size div 2"
  have h: "0 \<le> h" using assms(1) by (simp add: h_def)
  have a: "a = nat (max 0 (int i - h))" by (simp add: a_def h_def)
  have b: "b = nat (min (int (length data)) (int i + h + 1))" by (simp add: b_def h_def)
  show "a \<le> i" using h unfolding a by linarith
  show "i < b" using h assms(2) unfolding b by linarith
  show "b \<le> length data" unfolding b by linarith
  show "max 0 (int i - window_size div 2) = int a" unfolding a h_def by linarith
  show "min (int (length data)) (int i + window_size div 2 + 1) = int b"
    using h unfolding b h_def by linarith
qed

lemma window_avg_spec:
  assumes "1 \<le> window_size" "i < length data"
  shows "window_avg data window_size i = Inr (float_avg data window_size i)"
proof -
  define a where "a = nat (max 0 (int i - window_size div 2))"
  define b where "b = nat (min (int (length data)) (int i + window_size div 2 + 1))"
  note wb = window_bounds [OF assms, folded a_def b_def]
  have ab: "a \<le> b" "b \<le> length data" "a < b" using wb(1,2,3) by auto
  have sl: "py_slice data (int a) (int b) = map ((!) data) [a..<b]"
    using py_slice_inner [OF ab(1,2)] take_drop_nth [OF ab(2), of a] by simp
  have len: "length (map ((!) data) [a..<b]) = b - a" by simp
  have "window_avg data window_size i
        = float_truediv (py_sum (map ((!) data) [a..<b])) (b - a)"
    unfolding window_avg_def Let_def wb(4) wb(5) sl len ..
  also have "\<dots> = Inr (float_quot (py_sum (map ((!) data) [a..<b])) (b - a))"
    using ab by (simp add: float_truediv_def)
  finally show ?thesis
    by (simp add: float_avg_def a_def b_def Let_def)
qed

lemma moving_average_loop_spec:
  assumes "1 \<le> window_size" "\<forall>i\<in>set is. i < length data"
  shows "moving_average_loop data window_size is result
         = Inr (result @ map (float_avg data window_size) is)"
  using assms(2)
proof (induction "is" arbitrary: result)
  case Nil
  then show ?case by simp
next
  case (Cons i "is")
  then show ?case using assms(1) by (simp add: window_avg_spec)
qed

lemma moving_average_spec:
  assumes "1 \<le> window_size"
  shows "moving_average data window_size
         = Inr (if length data \<le> 1 then data
                else map (float_avg data window_size) [0..<length data])"
  using moving_average_loop_spec [OF assms, of "[0..<length data]" data "[]"]
  by (simp add: moving_average_def)

lemma avg_between:
  assumes "a < b" "b \<le> length xs"
  shows "Min (set xs) \<le> (\<Sum>j = a..<b. (xs ! j :: real)) / real (b - a)"
    and "(\<Sum>j = a..<b. xs ! j) / real (b - a) \<le> Max (set xs)"
proof -
  have mem: "xs ! j \<in> set xs" if "j \<in> {a..<b}" for j
    using that assms by simp
  have lo: "real (card {a..<b}) * Min (set xs) \<le> (\<Sum>j = a..<b. xs ! j)"
    using sum_bounded_below [of "{a..<b}" "Min (set xs)" "\<lambda>j. xs ! j"] mem
    by (simp add: mult.commute)
  have hi: "(\<Sum>j = a..<b. xs ! j) \<le> real (card {a..<b}) * Max (set xs)"
    using sum_bounded_above [of "{a..<b}" "\<lambda>j. xs ! j" "Max (set xs)"] mem
    by (simp add: mult.commute)
  have pos: "0 < real (b - a)" using assms by simp
  show "Min (set xs) \<le> (\<Sum>j = a..<b. xs ! j) / real (b - a)"
    using lo pos by (simp add: pos_le_divide_eq mult.commute)
  show "(\<Sum>j = a..<b. xs ! j) / real (b - a) \<le> Max (set xs)"
    using hi pos by (simp add: pos_divide_le_eq mult.commute)
qed

lemma spec_avg_between:
  assumes "1 \<le> window_size" "i < length data"
  shows "Min (set data) \<le> spec_avg data window_size i \<and> spec_avg data window_size i \<le> Max (set data)"
proof -
  define a where "a = nat (max 0 (int i - window_size div 2))"
  define b where "b = nat (min (int (length data)) (int i + window_size div 2 + 1))"
  note wb = window_bounds [OF assms, folded a_def b_def]
  have "a < b" "b \<le> length data" using wb(1,2,3) by auto
  from avg_between [OF this] show ?thesis
    unfolding spec_avg_def Let_def a_def [symmetric] b_def [symmetric] by blast
qed

subsection \<open>Evaluating the rounding\<close>

lemma binade_eq:
  assumes "2 powi e \<le> \<bar>x\<bar>" "\<bar>x\<bar> < 2 powi (e + 1)" "- 1022 \<le> e"
  shows "binade x = e"
proof -
  have pos: "0 < \<bar>x\<bar>" using assms(1) zero_less_power_int [of "2::real" e] by linarith
  have p: "(2::real) powr real_of_int k = 2 powi k" for k
    by (simp add: powr_real_of_int')
  have "\<lfloor>log 2 \<bar>x\<bar>\<rfloor> = e"
    using floor_log_eq_powr_iff [of "\<bar>x\<bar>" 2 e] pos assms(1,2) p [of e] p [of "e + 1"]
    by simp
  then show ?thesis using assms(3) by (simp add: binade_def)
qed

lemma round_half_even_le:
  assumes "x \<le> of_int n"
  shows "round_half_even x \<le> n"
proof (cases "\<lfloor>x\<rfloor> < n")
  case True
  then show ?thesis by (simp add: round_half_even_def Let_def)
next
  case False
  moreover have "\<lfloor>x\<rfloor> \<le> n" using assms by (simp add: floor_le_iff)
  ultimately have f: "\<lfloor>x\<rfloor> = n" by simp
  then have "x = of_int n" using assms by linarith
  then show ?thesis by (simp add: round_half_even_def)
qed

lemma round_half_even_ge:
  assumes "of_int n \<le> x"
  shows "n \<le> round_half_even x"
proof -
  have "n \<le> \<lfloor>x\<rfloor>" using assms by (simp add: le_floor_iff)
  then show ?thesis by (auto simp: round_half_even_def Let_def)
qed

text \<open>
  A number in a normal binade is rounded to a multiple of the unit of that binade,
  and the result is finite.
\<close>

lemma fl_in_binade:
  assumes "2 powi e \<le> \<bar>x\<bar>" "\<bar>x\<bar> < 2 powi (e + 1)" "- 1022 \<le> e" "e \<le> 1022"
  shows "fl x = Fin (of_int (round_half_even (x / 2 powi (e - 52))) * 2 powi (e - 52))"
proof -
  define u :: real where "u = 2 powi (e - 52)"
  have u: "0 < u" by (simp add: u_def)
  have b: "binade x = e" using assms(1-3) by (rule binade_eq)
  have "0 < \<bar>x\<bar>" using assms(1) zero_less_power_int [of "2::real" e] by linarith
  then have x0: "x \<noteq> 0" by auto
  have split: "(2::real) powi (e + 1) = 2 ^ 53 * u"
    unfolding u_def using power_int_add [of "2::real" "e - 52" 53]
    by (simp add: mult.commute add.commute)
  define z where "z = x / u"
  have "\<bar>z\<bar> < 2 ^ 53"
    using assms(2) u split by (simp add: z_def pos_divide_less_eq abs_divide)
  then have bounds: "z \<le> 2 ^ 53" "- (2 ^ 53) \<le> z" by linarith+
  have r: "round_half_even (x / u) \<le> 2 ^ 53" "- (2 ^ 53) \<le> round_half_even (x / u)"
    using bounds round_half_even_le [of z "2 ^ 53"] round_half_even_ge [of "- (2 ^ 53)" z]
    by (simp_all add: z_def)
  define m where "m = round_half_even (x / u)"
  define y where "y = of_int m * u"
  have "real_of_int m \<le> real_of_int (2 ^ 53)" "real_of_int (- (2 ^ 53)) \<le> real_of_int m"
    using r unfolding m_def by (simp_all only: of_int_le_iff)
  then have m: "real_of_int m \<le> 2 ^ 53" "- (2 ^ 53) \<le> real_of_int m" by simp_all
  have "y \<le> 2 ^ 53 * u" "- (2 ^ 53) * u \<le> y"
    unfolding y_def using m u by (intro mult_right_mono; simp)+
  then have "y \<le> 2 ^ 53 * u" "- (2 ^ 53 * u) \<le> y" by simp_all
  moreover have "(2::real) powi (e + 1) \<le> 2 powi 1023"
    using assms(4) by (intro power_int_increasing) simp_all
  ultimately have "y < 2 ^ 1024" "- (2 ^ 1024) < y"
    using split by simp_all
  then show ?thesis
    using x0 b by (simp add: fl_def Let_def u_def y_def m_def)
qed

text \<open>The small integers of the example below, and 3/2, are floats.\<close>

lemma fl_small:
  "fl 1 = Fin 1" "fl 2 = Fin 2" "fl 3 = Fin 3" "fl 4 = Fin 4" "fl 8 = Fin 8" "fl 9 = Fin 9"
  "fl (3 / 2) = Fin (3 / 2)"
  using fl_in_binade [of 0 1] fl_in_binade [of 1 2] fl_in_binade [of 1 3]
    fl_in_binade [of 2 4] fl_in_binade [of 3 8] fl_in_binade [of 3 9]
    fl_in_binade [of 0 "3 / 2"]
  by (simp_all add: round_half_even_def)

text \<open>
  The float nearest to one tenth is 3602879701896397 / 2 ^ 55. It and its double are
  floats; three times it lies half way between two floats and is rounded up, to
  5404319552844596 / 2 ^ 54; a third of that is rounded to 7205759403792795 / 2 ^ 56,
  the float next above the tenth.
\<close>

lemma fl_tenth:
  "fl (3602879701896397 / 36028797018963968) = Fin (3602879701896397 / 36028797018963968)"
  "fl (3602879701896397 / 18014398509481984) = Fin (3602879701896397 / 18014398509481984)"
  "fl (10808639105689191 / 36028797018963968) = Fin (5404319552844596 / 18014398509481984)"
  "fl (5404319552844596 / 54043195528445952) = Fin (7205759403792795 / 72057594037927936)"
  using fl_in_binade [of "- 4" "3602879701896397 / 36028797018963968"]
    fl_in_binade [of "- 3" "3602879701896397 / 18014398509481984"]
    fl_in_binade [of "- 2" "10808639105689191 / 36028797018963968"]
    fl_in_binade [of "- 4" "5404319552844596 / 54043195528445952"]
  by (simp_all add: round_half_even_def)

text \<open>
  C4, as amended. For a window size of at least 1, \<open>moving_average\<close> raises nothing and
  returns a list as long as the data. A list of at most one value is returned as it
  is; otherwise the element at each index \<open>i\<close> is the float quotient of the float sum
  of the values at the indices from \<open>max(0, i - window_size div 2)\<close> to
  \<open>min(len, i + window_size div 2 + 1)\<close> by their number. On finite data the exact
  mean of those values lies between the least and the greatest value of the data; the
  element computed is that mean up to the rounding of the sums and of the quotient.
\<close>

theorem moving_average_centered:
  assumes "1 \<le> window_size"
  shows "\<exists>ys. moving_average data window_size = Inr ys \<and> length ys = length data
     \<and> (\<forall>i<length data.
           ys ! i = (if length data \<le> 1 then data ! i else float_avg data window_size i))
     \<and> (\<forall>i<length xs.
           Min (set xs) \<le> spec_avg xs window_size i \<and> spec_avg xs window_size i \<le> Max (set xs))"
  using moving_average_spec [OF assms, of data] spec_avg_between [OF assms, of _ xs]
  by simp

text \<open>
  The theorem of C4 on the data 1, 2, 6 with window size 3, where no sum and no
  quotient is rounded.
\<close>

theorem moving_average_centered_witness:
  "(1::int) \<le> 3 \<and> moving_average [Fin 1, Fin 2, Fin 6] 3 = Inr [Fin (3 / 2), Fin 3, Fin 4]
   \<and> Min (set [1, 2, 6 :: real]) \<le> spec_avg [1, 2, 6] 3 1
   \<and> spec_avg [1, 2, 6] 3 1 \<le> Max (set [1, 2, 6 :: real])"
proof -
  have h: "(1::int) \<le> 3" by simp
  from moving_average_centered [OF h, of "[Fin 1, Fin 2, Fin 6]" "[1, 2, 6]"]
  obtain ys where ys: "moving_average [Fin 1, Fin 2, Fin 6] 3 = Inr ys" "length ys = 3"
    and nth: "\<forall>i<3. ys ! i = float_avg [Fin 1, Fin 2, Fin 6] 3 i"
    and between: "\<forall>i<3. Min (set [1, 2, 6 :: real]) \<le> spec_avg [1, 2, 6] 3 i
        \<and> spec_avg [1, 2, 6] 3 i \<le> Max (set [1, 2, 6 :: real])"
    by auto
  obtain a b c where abc: "ys = [a, b, c]"
    using ys(2) by (auto simp: numeral_3_eq_3 length_Suc_conv)
  have "ys ! 0 = Fin (3 / 2)" "ys ! 1 = Fin 3" "ys ! 2 = Fin 4"
    using nth by (simp_all add: float_avg_def py_sum_def float_quot_def fl_small upt_rec)
  then have "ys = [Fin (3 / 2), Fin 3, Fin 4]"
    unfolding abc by simp
  then show ?thesis using ys(1) between by simp
qed

text \<open>
  C4, as stated, fails: on three times the float nearest to one tenth, with window
  size 3, the middle element of the result is greater than the greatest value of the
  data.
\<close>

theorem moving_average_exceeds_max:
  "moving_average
     [Fin (3602879701896397 / 36028797018963968), Fin (3602879701896397 / 36028797018963968),
      Fin (3602879701896397 / 36028797018963968)] 3
   = Inr [Fin (3602879701896397 / 36028797018963968),
          Fin (7205759403792795 / 72057594037927936),
          Fin (3602879701896397 / 36028797018963968)]
   \<and> (3602879701896397 / 36028797018963968 :: real) < 7205759403792795 / 72057594037927936"
  using fl_tenth
  by (simp add: moving_average_def window_avg_def py_slice_def slice_bound_def py_sum_def
      float_truediv_def float_quot_def upt_rec)

section \<open>The nearest point\<close>

lemma point_dist_nonneg: "0 \<le> point_dist ex ey p"
  by (cases p) (simp add: point_dist_def hypot_def)

lemma point_dist_zero: "point_dist ex ey p = 0 \<longleftrightarrow> drawn_at ex ey p"
  by (cases p) (auto simp: point_dist_def hypot_def drawn_at_def sum_power2_eq_zero_iff)

lemma on_motion_loop_result:
  "(on_motion_loop ex ey ps c m = c \<and> (\<forall>p\<in>set ps. m \<le> point_dist ex ey p))
   \<or> (\<exists>p. on_motion_loop ex ey ps c m = Some p \<and> p \<in> set ps \<and> point_dist ex ey p < m
          \<and> (\<forall>q\<in>set ps. point_dist ex ey p \<le> point_dist ex ey q))"
proof (induction ps arbitrary: c m)
  case Nil
  then show ?case by simp
next
  case (Cons a ps)
  let ?d = "point_dist ex ey"
  show ?case
  proof (cases "?d a < m")
    case True
    then have step: "on_motion_loop ex ey (a # ps) c m = on_motion_loop ex ey ps (Some a) (?d a)"
      by (simp add: Let_def)
    from Cons.IH [of "Some a" "?d a"] show ?thesis
    proof (elim disjE exE conjE)
      assume r: "on_motion_loop ex ey ps (Some a) (?d a) = Some a"
        and le: "\<forall>p\<in>set ps. ?d a \<le> ?d p"
      have "on_motion_loop ex ey (a # ps) c m = Some a \<and> a \<in> set (a # ps) \<and> ?d a < m
            \<and> (\<forall>q\<in>set (a # ps). ?d a \<le> ?d q)"
        using step r le True by simp
      then show ?thesis by blast
    next
      fix p
      assume r: "on_motion_loop ex ey ps (Some a) (?d a) = Some p"
        and p: "p \<in> set ps" "?d p < ?d a" and le: "\<forall>q\<in>set ps. ?d p \<le> ?d q"
      have "?d p < m" using p(2) True by linarith
      then have "on_motion_loop ex ey (a # ps) c m = Some p \<and> p \<in> set (a # ps) \<and> ?d p < m
            \<and> (\<forall>q\<in>set (a # ps). ?d p \<le> ?d q)"
        using step r p le by simp
      then show ?thesis by blast
    qed
  next
    case False
    then have step: "on_motion_loop ex ey (a # ps) c m = on_motion_loop ex ey ps c m"
      by (simp add: Let_def)
    from Cons.IH [of c m] show ?thesis
    proof (elim disjE exE conjE)
      assume r: "on_motion_loop ex ey ps c m = c" and le: "\<forall>p\<in>set ps. m \<le> ?d p"
      have "on_motion_loop ex ey (a # ps) c m = c \<and> (\<forall>p\<in>set (a # ps). m \<le> ?d p)"
        using step r le False by simp
      then show ?thesis by blast
    next
      fix p
      assume r: "on_motion_loop ex ey ps c m = Some p"
        and p: "p \<in> set ps" "?d p < m" and le: "\<forall>q\<in>set ps. ?d p \<le> ?d q"
      have "?d p \<le> ?d a" using p(2) False by linarith
      then have "on_motion_loop ex ey (a # ps) c m = Some p \<and> p \<in> set (a # ps) \<and> ?d p < m
            \<and> (\<forall>q\<in>set (a # ps). ?d p \<le> ?d q)"
        using step r p le by simp
      then show ?thesis by blast
    qed
  qed
qed

lemma on_motion_loop_saturated:
  "m \<le> 0 \<Longrightarrow> on_motion_loop ex ey ps c m = c"
proof (induction ps arbitrary: c)
  case Nil
  then show ?case by simp
next
  case (Cons a ps)
  then show ?case using point_dist_nonneg [of ex ey a] by (simp add: Let_def)
qed

lemma on_motion_loop_exact:
  "0 < m \<Longrightarrow> \<exists>p\<in>set ps. drawn_at ex ey p \<Longrightarrow>
   on_motion_loop ex ey ps c m = find (drawn_at ex ey) ps"
proof (induction ps arbitrary: c m)
  case Nil
  then show ?case by simp
next
  case (Cons a ps)
  show ?case
  proof (cases "drawn_at ex ey a")
    case True
    then have "point_dist ex ey a = 0" by (simp add: point_dist_zero)
    then show ?thesis using True Cons.prems(1)
      by (simp add: Let_def on_motion_loop_saturated)
  next
    case False
    then have pos: "0 < point_dist ex ey a"
      using point_dist_nonneg [of ex ey a] point_dist_zero [of ex ey a] by linarith
    from False Cons.prems(2) have ex: "\<exists>p\<in>set ps. drawn_at ex ey p" by auto
    show ?thesis
      using False Cons.IH [OF pos ex] Cons.IH [OF Cons.prems(1) ex]
      by (simp add: Let_def)
  qed
qed

text \<open>
  C9, as amended. The query returns no point exactly when every plotted point is at
  distance 15 or more; a point it returns is one of the plotted points, is at distance
  less than 15, and no plotted point is closer; and when some plotted point is drawn
  at the coordinates of the query, it returns the first plotted point drawn there.
\<close>

theorem on_motion_nearest:
  "(on_motion ex ey pts = None \<longleftrightarrow> (\<forall>p\<in>set pts. 15 \<le> point_dist ex ey p))
   \<and> (\<forall>p. on_motion ex ey pts = Some p \<longrightarrow>
          p \<in> set pts \<and> point_dist ex ey p < 15
          \<and> (\<forall>q\<in>set pts. point_dist ex ey p \<le> point_dist ex ey q))
   \<and> ((\<exists>p\<in>set pts. drawn_at ex ey p) \<longrightarrow> on_motion ex ey pts = find (drawn_at ex ey) pts)"
proof (intro conjI allI impI)
  show "on_motion ex ey pts = None \<longleftrightarrow> (\<forall>p\<in>set pts. 15 \<le> point_dist ex ey p)"
    using on_motion_loop_result [of ex ey pts None 15]
    by (auto simp: on_motion_def)
next
  fix p assume "on_motion ex ey pts = Some p"
  then show "p \<in> set pts" "point_dist ex ey p < 15"
    "\<forall>q\<in>set pts. point_dist ex ey p \<le> point_dist ex ey q"
    using on_motion_loop_result [of ex ey pts None 15]
    by (auto simp: on_motion_def)
next
  assume "\<exists>p\<in>set pts. drawn_at ex ey p"
  then show "on_motion ex ey pts = find (drawn_at ex ey) pts"
    using on_motion_loop_exact [of 15 pts ex ey None] by (simp add: on_motion_def)
qed

text \<open>
  The theorem of C9 on three points, two of them drawn at the query: the first of the
  two is returned.
\<close>

theorem on_motion_nearest_witness:
  "on_motion 3 4 [(0, 0, 0, 7, 1), (3, 4, 2, 5, 1), (3, 4, 2, 5, 2)] = Some (3, 4, 2, 5, 1)"
  using on_motion_nearest [of 3 4 "[(0, 0, 0, 7, 1), (3, 4, 2, 5, 1), (3, 4, 2, 5, 2)]"]
  by (simp add: drawn_at_def)

text \<open>
  C9, as stated, fails: with two samples drawn at the same place, a query at the
  projected coordinate of the second one does not return it.
\<close>

theorem on_motion_not_that_point:
  "on_motion 3 4 [(3, 4, 0, 5, 1), (3, 4, 0, 5, 2)] \<noteq> Some (3, 4, 0, 5, 2)"
  by (simp add: on_motion_def point_dist_def hypot_def)

section \<open>Recording\<close>

text \<open>
  A value read while the sequence of the current experiment is in the store is
  accepted: the filter returns a finite float on the stored values and the new one,
  and the sample is appended to that sequence and to the queue.
\<close>

lemma collect_step_appends:
  assumes "map_of (experiments st) (current_experiment st) = Some exp_list"
  shows "\<exists>fv. sigma_filter_last (map (\<lambda>s. Fin (snd s)) exp_list @ [Fin v]) 10 3 = Inr (Fin fv)
     \<and> collect_step t (Value v) st
         = (None,
            st\<lparr>experiments :=
                  AList.update (current_experiment st) (exp_list @ [(t, fv)]) (experiments st),
                data_queue := data_queue st @ [(t, fv)]\<rparr>)"
proof -
  have "map Fin (map snd exp_list @ [v]) = map (\<lambda>s. Fin (snd s)) exp_list @ [Fin v]"
    by simp
  then obtain fv where
    fv: "sigma_filter_last (map (\<lambda>s. Fin (snd s)) exp_list @ [Fin v]) 10 3 = Inr (Fin fv)"
    using sigma_filter_last_finite [of "map snd exp_list @ [v]" 10 3] by (auto simp: comp_def)
  then show ?thesis using assms by (simp add: collect_step_def)
qed

lemma collect_step_keys:
  "fst ` set (experiments (snd (collect_step t r st))) = fst ` set (experiments st)"
proof (cases r)
  case (Value v)
  show ?thesis
  proof (cases "map_of (experiments st) (current_experiment st)")
    case None
    then show ?thesis using Value by (simp add: collect_step_def)
  next
    case (Some exp_list)
    then have "current_experiment st \<in> fst ` set (experiments st)"
      by (metis domI dom_map_of_conv_image_fst)
    moreover obtain fv where
      "collect_step t (Value v) st
       = (None,
          st\<lparr>experiments :=
                AList.update (current_experiment st) (exp_list @ [(t, fv)]) (experiments st),
              data_queue := data_queue st @ [(t, fv)]\<rparr>)"
      using collect_step_appends [OF Some, of v t] by blast
    ultimately show ?thesis using Value
      by (simp add: AList.dom_update insert_absorb)
  qed
qed (simp_all add: collect_step_def)

lemma start_experiment_entry:
  "map_of (experiments (snd (start_experiment inp st))) (current_experiment st)
   = Some (get_or_empty (experiments st) (current_experiment st))"
  by (auto simp: start_experiment_def Let_def get_or_empty_def AList.update_conv')

text \<open>
  C5, as amended. The sequence of an experiment is created, empty, by
  \<open>start_experiment\<close> when it is not in the store yet, whatever the outcome of the
  connection. Collecting never adds an experiment to the store. A value read while
  the sequence of the current experiment is missing raises \<open>KeyError\<close> (caught by the
  loop) and changes nothing; otherwise the value the filter returns for it is
  appended, with its time stamp, to that sequence and to the queue, and nothing else
  changes. An iteration that reads no value changes nothing.
\<close>

theorem start_creates_entry:
  "map_of (experiments (snd (start_experiment inp st))) (current_experiment st)
     = Some (get_or_empty (experiments st) (current_experiment st))
   \<and> fst ` set (experiments (snd (collect_step t r st))) = fst ` set (experiments st)
   \<and> (map_of (experiments st) (current_experiment st) = None \<longrightarrow>
        collect_step t (Value v) st = (Some KeyError, st))
   \<and> (\<forall>exp_list. map_of (experiments st) (current_experiment st) = Some exp_list \<longrightarrow>
        (\<exists>fv. sigma_filter_last (map (\<lambda>s. Fin (snd s)) exp_list @ [Fin v]) 10 3 = Inr (Fin fv)
           \<and> collect_step t (Value v) st
               = (None,
                  st\<lparr>experiments :=
                        AList.update (current_experiment st) (exp_list @ [(t, fv)])
                          (experiments st),
                      data_queue := data_queue st @ [(t, fv)]\<rparr>)))
   \<and> collect_step t NoData st = (None, st)
   \<and> collect_step t BadLine st = (None, st)"
  using start_experiment_entry [of inp st] collect_step_keys [of t r st]
    collect_step_appends [of st _ v t]
  by (simp add: collect_step_def)

text \<open>
  The theorem of C5 in simulator mode: on the initial state, and on the state after
  the start, where the values 5 and then 7 are read and appended.
\<close>

theorem start_creates_entry_witness:
  "map_of (experiments init_state) (current_experiment init_state) = None
   \<and> experiments (snd (start_experiment
        \<lparr>mode_var = Simulator, port_var = [], have_pyserial = False, port_opens = False\<rparr>
        init_state)) = [(1, [])]
   \<and> collect_step 0 (Value 5) init_state = (Some KeyError, init_state)
   \<and> collect_step 0 (Value 5) (init_state\<lparr>experiments := [(1, [])]\<rparr>)
       = (None, init_state\<lparr>experiments := [(1, [(0, 5)])], data_queue := [(0, 5)]\<rparr>)
   \<and> collect_step 1 (Value 7)
         (init_state\<lparr>experiments := [(1, [(0, 5)])], data_queue := [(0, 5)]\<rparr>)
       = (None,
          init_state\<lparr>experiments := [(1, [(0, 5), (1, 7)])],
                     data_queue := [(0, 5), (1, 7)]\<rparr>)"
proof -
  let ?sim = "\<lparr>mode_var = Simulator, port_var = [], have_pyserial = False, port_opens = False\<rparr>"
  let ?s1 = "init_state\<lparr>experiments := [(1, [])]\<rparr>"
  let ?s2 = "init_state\<lparr>experiments := [(1, [(0, 5)])], data_queue := [(0, 5)]\<rparr>"
  have f1: "sigma_filter_last [Fin 5] 10 3 = Inr (Fin 5)"
    by (simp add: sigma_filter_last_def py_slice_from_def slice_bound_def)
  have f2: "sigma_filter_last [Fin 5, Fin 7] 10 3 = Inr (Fin 7)"
    by (simp add: sigma_filter_last_def py_slice_from_def slice_bound_def
        statistics_mean_def statistics_pstdev_def power2_eq_square)
  have a: "map_of (experiments init_state) (current_experiment init_state) = None"
    "collect_step 0 (Value 5) init_state = (Some KeyError, init_state)"
    using start_creates_entry [of ?sim init_state 0 NoData 5]
    by (simp_all add: init_state_def)
  have b: "experiments (snd (start_experiment ?sim init_state)) = [(1, [])]"
    by (simp add: start_experiment_def init_state_def)
  have c: "collect_step 0 (Value 5) ?s1 = (None, ?s2)"
    using start_creates_entry [of ?sim ?s1 0 NoData 5] f1
    by (simp add: init_state_def)
  have d: "collect_step 1 (Value 7) ?s2
      = (None, init_state\<lparr>experiments := [(1, [(0, 5), (1, 7)])],
                          data_queue := [(0, 5), (1, 7)]\<rparr>)"
    using start_creates_entry [of ?sim ?s2 1 NoData 7] f2
    by (simp add: init_state_def)
  show ?thesis using a b c d by simp
qed

text \<open>
  C5, as stated, fails: starting the first experiment and stopping it before any
  sample is accepted leaves the store with experiment 1 mapped to the empty sequence.
\<close>

theorem start_then_stop_leaves_empty_entry:
  "stop_experiment (snd (start_experiment
      \<lparr>mode_var = Simulator, port_var = [], have_pyserial = False, port_opens = False\<rparr>
      init_state))
   = Inr (init_state\<lparr>experiments := [(1, [])], current_experiment := 2,
                     log_text := [LogRule, LogStarted 1, LogTime, LogRule]\<rparr>)"
  by (simp add: start_experiment_def stop_experiment_def init_state_def get_or_empty_def)

text \<open>
  C8. \<open>stop_experiment\<close> never raises. It logs the count and the mean of the current
  experiment only when its sequence is not empty; with no sample it logs nothing and
  divides nothing.
\<close>

theorem stop_experiment_summary:
  "\<exists>st'. stop_experiment st = Inr st'
     \<and> log_text st' = log_text st
         @ (let data = get_or_empty (experiments st) (current_experiment st)
            in if data = [] then []
               else [LogFinished (current_experiment st),
                     LogSummary (length data) (sum_list (map snd data) / real (length data)),
                     LogRule])"
  by (simp add: stop_experiment_def py_truediv_def Let_def)

section \<open>Loading\<close>

lemma load_rows_failure:
  "load_rows L (map Row rows @ ReadError # rest) acc = (False, fold (load_row L) rows acc)"
  by (induction rows arbitrary: acc) simp_all

lemma load_rows_rows:
  "load_rows L (map Row rows) acc = (True, fold (load_row L) rows acc)"
  by (induction rows arbitrary: acc) simp_all

text \<open>
  C6, as amended. Loading is not atomic: the store is emptied and the current
  experiment reset to 1 before the file is opened. With an unreadable file the load
  fails on the empty store; when the reader fails after some rows, the load fails with
  the rows read so far in the store; and whatever file was chosen, nothing of the
  store and of the current experiment before the load is left. Only a cancelled
  dialog keeps the state.
\<close>

theorem open_data_clears_first:
  "open_data L Cancelled st = (LoadCancelled, st)
   \<and> open_data L (Chosen None) st
       = (LoadFailed, st\<lparr>experiments := [], current_experiment := 1\<rparr>)
   \<and> open_data L (Chosen (Some (Row header # map Row rows @ ReadError # rest))) st
       = (LoadFailed,
          st\<lparr>experiments := fst (fold (load_row L) rows ([], 1)),
             current_experiment := snd (fold (load_row L) rows ([], 1))\<rparr>)
   \<and> experiments (snd (open_data L (Chosen c) st))
       = experiments (snd (open_data L (Chosen c) init_state))
   \<and> current_experiment (snd (open_data L (Chosen c) st))
       = current_experiment (snd (open_data L (Chosen c) init_state))"
  by (auto simp: open_data_def load_rows_failure Let_def split: option.splits prod.splits bool.splits)

text \<open>
  C6, as stated, fails: the load of an unreadable file fails, and the one experiment
  of the store is lost with it.
\<close>

theorem open_data_unreadable_loses_store:
  "open_data plain_lib (Chosen None)
     (init_state\<lparr>experiments := [(1, [(0, 5)])], current_experiment := 2\<rparr>)
   = (LoadFailed, init_state\<lparr>experiments := [], current_experiment := 1\<rparr>)"
  by (simp add: open_data_def)

lemma parse_row_malformed: "parse_row L row = None \<longleftrightarrow> malformed L row"
  by (auto simp: parse_row_def malformed_def split: option.splits)

lemma samples_of_well_formed:
  "samples_of L n (filter (\<lambda>row. \<not> malformed L row) rows) = samples_of L n rows"
proof (induction rows)
  case Nil
  then show ?case by simp
next
  case (Cons row rows)
  then show ?case
    using parse_row_malformed [of L row]
    by (auto simp: samples_of_def row_sample_def)
qed

lemma load_row_lookup:
  "map_of (fst (load_row L row (d, cur))) n
   = (if row_sample L n row = [] then map_of d n
      else Some (get_or_empty d n @ row_sample L n row))"
  by (auto simp: load_row_def row_sample_def AList.update_conv' split: option.splits)

lemma get_or_empty_load_row:
  "get_or_empty (fst (load_row L row (d, cur))) n = get_or_empty d n @ row_sample L n row"
  by (simp add: get_or_empty_def load_row_lookup split: option.splits)

lemma fold_load_row_lookup:
  "map_of (fst (fold (load_row L) rows (d, cur))) n
   = (if samples_of L n rows = [] then map_of d n
      else Some (get_or_empty d n @ samples_of L n rows))"
proof (induction rows arbitrary: d cur)
  case Nil
  then show ?case by (simp add: samples_of_def)
next
  case (Cons row rows)
  obtain d' cur' where step: "load_row L row (d, cur) = (d', cur')"
    by (cases "load_row L row (d, cur)")
  have look: "map_of d' n = (if row_sample L n row = [] then map_of d n
      else Some (get_or_empty d n @ row_sample L n row))"
    using load_row_lookup [of L row d cur n] step by simp
  have get: "get_or_empty d' n = get_or_empty d n @ row_sample L n row"
    using get_or_empty_load_row [of L row d cur n] step by simp
  show ?case
    using Cons.IH [of d' cur'] step look get
    by (simp add: samples_of_def)
qed

lemma Max_insert_max:
  fixes a b :: int
  assumes "finite S"
  shows "Max (insert (max a b) S) = Max (insert a (insert b S))"
proof (cases "S = {}")
  case True
  then show ?thesis by simp
next
  case False
  then show ?thesis using assms by (simp add: max.assoc)
qed

lemma load_row_next:
  "snd (load_row L row (d, cur))
   = (case parse_row L row of None \<Rightarrow> cur | Some (m, t, v) \<Rightarrow> max cur (m + 1))"
  by (auto simp: load_row_def split: option.splits)

lemma fold_load_row_next:
  "snd (fold (load_row L) rows (d, cur)) = Max (insert cur ((\<lambda>m. m + 1) ` set (row_ids L rows)))"
proof (induction rows arbitrary: d cur)
  case Nil
  then show ?case by (simp add: row_ids_def List.map_filter_simps)
next
  case (Cons row rows)
  obtain d' cur' where step: "load_row L row (d, cur) = (d', cur')"
    by (cases "load_row L row (d, cur)")
  have cur': "cur' = (case parse_row L row of None \<Rightarrow> cur | Some (m, t, v) \<Rightarrow> max cur (m + 1))"
    using load_row_next [of L row d cur] step by simp
  show ?case
  proof (cases "parse_row L row")
    case None
    then show ?thesis using Cons.IH [of d' cur'] step cur'
      by (simp add: row_ids_def List.map_filter_simps)
  next
    case (Some a)
    obtain m t v where a: "a = (m, t, v)" by (cases a)
    have "Max (insert (max cur (m + 1)) ((\<lambda>m. m + 1) ` set (row_ids L rows)))
          = Max (insert cur (insert (m + 1) ((\<lambda>m. m + 1) ` set (row_ids L rows))))"
      by (rule Max_insert_max) simp
    then show ?thesis using Cons.IH [of d' cur'] step cur' Some a
      by (simp add: row_ids_def List.map_filter_simps)
  qed
qed

lemma open_data_rows:
  "open_data L (Chosen (Some (Row header # map Row rows))) st
   = (Loaded,
      st\<lparr>experiments := fst (fold (load_row L) rows ([], 1)),
         current_experiment := snd (fold (load_row L) rows ([], 1)),
         log_text := LogLoadedFrom
           # map (\<lambda>n. LogCount n (length (get_or_empty (fst (fold (load_row L) rows ([], 1))) n)))
               (sort (map fst (fst (fold (load_row L) rows ([], 1)))))\<rparr>)"
proof -
  obtain d cur where f: "fold (load_row L) rows ([], 1) = (d, cur)"
    by (cases "fold (load_row L) rows ([], 1)")
  show ?thesis
    by (simp add: open_data_def load_rows_rows f)
qed

text \<open>
  C7. Loading a file whose reader yields a header and rows never fails, and for every
  experiment number the store then holds exactly the samples of the rows with that
  label that are not malformed, in the order of the file: the malformed rows, and
  only they, are skipped.
\<close>

theorem open_data_skips_malformed:
  "fst (open_data L (Chosen (Some (Row header # map Row rows))) st) = Loaded
   \<and> map_of (experiments (snd (open_data L (Chosen (Some (Row header # map Row rows))) st))) n
       = (let ss = samples_of L n (filter (\<lambda>row. \<not> malformed L row) rows)
          in if ss = [] then None else Some ss)
   \<and> (parse_row L row = None \<longleftrightarrow> malformed L row)"
  using fold_load_row_lookup [of L rows "[]" 1 n] parse_row_malformed [of L row]
  by (simp add: open_data_rows samples_of_well_formed get_or_empty_def)

text \<open>
  The theorem of C7 on six rows: a good one, one with two fields, one with a label
  that is no number, one with a value that is no number, an empty one, and a good one
  with the small letter in its label.
\<close>

theorem open_data_skips_malformed_witness:
  "map_of (experiments (snd (open_data plain_lib
      (Chosen (Some (Row csv_header # map Row
         [[[1069, 49], [53, 46, 48], [55, 46, 48], [100]],
          [[1069, 49], [53, 46, 48]],
          [[1069, 120], [53, 46, 48], [55, 46, 48]],
          [[1069, 49], [54, 46, 48], [120]],
          [],
          [[1101, 49], [54, 46, 48], [56, 46, 48]]])))
      init_state))) 1 = Some [(5, 7), (6, 8)]"
  using open_data_skips_malformed [of plain_lib csv_header
         "[[[1069, 49], [53, 46, 48], [55, 46, 48], [100]],
          [[1069, 49], [53, 46, 48]],
          [[1069, 120], [53, 46, 48], [55, 46, 48]],
          [[1069, 49], [54, 46, 48], [120]],
          [],
          [[1101, 49], [54, 46, 48], [56, 46, 48]]]" init_state 1 "[]"]
  by (simp add: malformed_def samples_of_def row_sample_def parse_row_def plain_lib_def
      lstrip_label_def parse_int_def parse_float_def)

section \<open>Saving, then loading\<close>

lemma lib_faithful_sample:
  assumes "lib_faithful L d" "map_of d n = Some ss" "s \<in> set ss"
  shows "sample_ok L n s"
proof -
  have "(n, ss) \<in> set d" using assms(2) by (rule map_of_SomeD)
  then show ?thesis
    using assms(1,3) by (cases s) (fastforce simp: lib_faithful_def sample_ok_def)
qed

lemma sample_row_written:
  "sample_ok L n s \<Longrightarrow> sample_row L n s = Some (written_row L n s)"
  by (cases s) (auto simp: sample_ok_def sample_row_def written_row_def)

lemma parse_row_written:
  "sample_ok L n s \<Longrightarrow> parse_row L (written_row L n s) = Some (n, fst s, snd s)"
  by (simp add: sample_ok_def parse_row_def written_row_def)

lemma write_samples_written:
  "\<forall>s\<in>set ss. sample_ok L n s \<Longrightarrow>
   write_samples L n ss out = Some (out @ map (written_row L n) ss)"
  by (induction ss arbitrary: out) (simp_all add: sample_row_written)

lemma write_experiments_written:
  "\<forall>k\<in>set ks. map_of d k \<noteq> None \<and> (\<forall>s\<in>set (get_or_empty d k). sample_ok L k s) \<Longrightarrow>
   write_experiments L d ks out
   = Some (out @ concat (map (\<lambda>k. map (written_row L k) (get_or_empty d k)) ks))"
proof (induction ks arbitrary: out)
  case Nil
  then show ?case by simp
next
  case (Cons k ks)
  from Cons.prems obtain ss where ss: "map_of d k = Some ss" by auto
  then have g: "get_or_empty d k = ss" by (simp add: get_or_empty_def)
  have "write_samples L k ss out = Some (out @ map (written_row L k) ss)"
    using Cons.prems g by (intro write_samples_written) simp
  then show ?case using Cons ss g by simp
qed

lemma samples_of_append: "samples_of L n (xs @ ys) = samples_of L n xs @ samples_of L n ys"
  by (simp add: samples_of_def)

lemma samples_of_written:
  "\<forall>s\<in>set ss. sample_ok L k s \<Longrightarrow>
   samples_of L n (map (written_row L k) ss) = (if k = n then ss else [])"
proof (induction ss)
  case Nil
  then show ?case by (simp add: samples_of_def)
next
  case (Cons s ss)
  then have "row_sample L n (written_row L k s) = (if k = n then [s] else [])"
    by (simp add: row_sample_def parse_row_written)
  moreover have "samples_of L n (written_row L k s # map (written_row L k) ss)
      = row_sample L n (written_row L k s) @ samples_of L n (map (written_row L k) ss)"
    by (simp add: samples_of_def)
  ultimately show ?case using Cons by simp
qed

lemma samples_of_blocks:
  assumes "\<forall>k\<in>set ks. \<forall>s\<in>set (g k). sample_ok L k s" "distinct ks"
  shows "samples_of L n (concat (map (\<lambda>k. map (written_row L k) (g k)) ks))
         = (if n \<in> set ks then g n else [])"
  using assms
proof (induction ks)
  case Nil
  then show ?case by (simp add: samples_of_def)
next
  case (Cons k ks)
  have "samples_of L n (map (written_row L k) (g k)) = (if k = n then g k else [])"
    using Cons.prems by (intro samples_of_written) simp
  then show ?case using Cons by (auto simp: samples_of_append)
qed

lemma row_ids_append: "row_ids L (xs @ ys) = row_ids L xs @ row_ids L ys"
  by (simp add: row_ids_def List.map_filter_def)

lemma row_ids_written:
  "\<forall>s\<in>set ss. sample_ok L k s \<Longrightarrow> set (row_ids L (map (written_row L k) ss)) = (if ss = [] then {} else {k})"
  by (induction ss) (auto simp: row_ids_def List.map_filter_def parse_row_written)

lemma row_ids_blocks:
  assumes "\<forall>k\<in>set ks. g k \<noteq> [] \<and> (\<forall>s\<in>set (g k). sample_ok L k s)"
  shows "set (row_ids L (concat (map (\<lambda>k. map (written_row L k) (g k)) ks))) = set ks"
  using assms
proof (induction ks)
  case Nil
  then show ?case by (simp add: row_ids_def List.map_filter_def)
next
  case (Cons k ks)
  have "set (row_ids L (map (written_row L k) (g k))) = {k}"
    using Cons.prems row_ids_written [of "g k" L k] by simp
  then show ?case using Cons by (simp add: row_ids_append)
qed

lemma Max_next:
  fixes K :: "int set"
  assumes "finite K" "K \<noteq> {}" "\<forall>k\<in>K. 1 \<le> k"
  shows "Max (insert 1 ((\<lambda>m. m + 1) ` K)) = Max K + 1"
proof -
  have "Max ((\<lambda>m. m + 1) ` K) = Max K + 1"
    using mono_Max_commute [of "\<lambda>m::int. m + 1" K] assms(1,2) by (simp add: mono_def)
  moreover have "1 \<le> Max K" using assms Max_in by blast
  ultimately show ?thesis using assms(1,2) by simp
qed

text \<open>
  C3, as amended. For a store that is not empty, whose experiment numbers are
  positive and whose sequences all hold at least one sample, and a library that reads
  back what it writes for the numbers of that store: saving succeeds, and loading the
  file saved, in any state, yields the same experiment numbers with the same
  sequences and sets the current experiment to the greatest number plus 1.
\<close>

theorem save_then_open:
  assumes "distinct (map fst (experiments st))"
    and "experiments st \<noteq> []"
    and "\<forall>(n, ss)\<in>set (experiments st). 1 \<le> n \<and> ss \<noteq> []"
    and "lib_faithful L (experiments st)"
  shows "\<exists>rows. save_all_data L (Chosen True) st = Saved rows
     \<and> fst (open_data L (Chosen (Some (map Row rows))) st') = Loaded
     \<and> map_of (experiments (snd (open_data L (Chosen (Some (map Row rows))) st')))
         = map_of (experiments st)
     \<and> current_experiment (snd (open_data L (Chosen (Some (map Row rows))) st'))
         = Max (fst ` set (experiments st)) + 1"
proof -
  define d where "d = experiments st"
  define ks where "ks = sort (map fst d)"
  define body where "body = concat (map (\<lambda>k. map (written_row L k) (get_or_empty d k)) ks)"
  have ks_set: "set ks = fst ` set d" by (simp add: ks_def)
  have ks_distinct: "distinct ks" using assms(1) by (simp add: ks_def d_def)
  have entry: "\<exists>ss. map_of d k = Some ss \<and> ss \<noteq> [] \<and> 1 \<le> k \<and> (\<forall>s\<in>set ss. sample_ok L k s)"
    if "k \<in> set ks" for k
  proof -
    from that obtain ss where ss: "map_of d k = Some ss"
      using ks_set by (metis domD dom_map_of_conv_image_fst)
    then have "(k, ss) \<in> set d" by (rule map_of_SomeD)
    then have "1 \<le> k \<and> ss \<noteq> []" using assms(3) by (auto simp: d_def)
    then show ?thesis using ss lib_faithful_sample [OF assms(4) [folded d_def] ss] by simp
  qed
  have ok: "\<forall>k\<in>set ks. map_of d k \<noteq> None \<and> (\<forall>s\<in>set (get_or_empty d k). sample_ok L k s)"
    using entry by (fastforce simp: get_or_empty_def)
  have ne: "\<forall>k\<in>set ks. get_or_empty d k \<noteq> [] \<and> (\<forall>s\<in>set (get_or_empty d k). sample_ok L k s)"
    using entry by (fastforce simp: get_or_empty_def)
  have saved: "save_all_data L (Chosen True) st = Saved (csv_header # body)"
    using assms(2) write_experiments_written [OF ok, of "[csv_header]"]
    by (simp add: save_all_data_def d_def [symmetric] ks_def [symmetric] body_def)
  have look: "map_of (fst (fold (load_row L) body ([], 1))) n = map_of d n" for n
  proof -
    have s: "samples_of L n body = (if n \<in> set ks then get_or_empty d n else [])"
      unfolding body_def using ne ks_distinct by (intro samples_of_blocks) simp_all
    show ?thesis
    proof (cases "n \<in> set ks")
      case True
      then show ?thesis
        using entry [OF True] s fold_load_row_lookup [of L body "[]" 1 n]
        by (auto simp: get_or_empty_def)
    next
      case False
      then have "map_of d n = None"
        using ks_set by (simp add: map_of_eq_None_iff)
      then show ?thesis
        using False s fold_load_row_lookup [of L body "[]" 1 n] by simp
    qed
  qed
  have ids: "set (row_ids L body) = set ks"
    unfolding body_def using ne by (rule row_ids_blocks)
  have "fst ` set d \<noteq> {}" using assms(2) by (simp add: d_def)
  moreover have "\<forall>k\<in>fst ` set d. 1 \<le> k" using entry ks_set by blast
  ultimately have nxt: "snd (fold (load_row L) body ([], 1)) = Max (fst ` set d) + 1"
    using fold_load_row_next [of L body "[]" 1] ids ks_set Max_next [of "fst ` set d"]
    by simp
  have opened: "open_data L (Chosen (Some (Row csv_header # map Row body))) st'
      = (Loaded,
         st'\<lparr>experiments := fst (fold (load_row L) body ([], 1)),
            current_experiment := snd (fold (load_row L) body ([], 1)),
            log_text := LogLoadedFrom
              # map (\<lambda>n. LogCount n (length (get_or_empty (fst (fold (load_row L) body ([], 1))) n)))
                  (sort (map fst (fst (fold (load_row L) body ([], 1)))))\<rparr>)"
    by (rule open_data_rows)
  have "map_of (experiments (snd (open_data L (Chosen (Some (Row csv_header # map Row body))) st')))
        = map_of d"
    unfolding opened using look by (intro ext) simp
  then show ?thesis
    using saved nxt unfolding d_def by (intro exI [of _ "csv_header # body"]) (simp add: opened)
qed

lemma plain_lib_faithful: "lib_faithful plain_lib saved_store"
  by (simp add: lib_faithful_def saved_store_def plain_lib_def lstrip_label_def
      dec_int_def dec_float_def parse_int_def parse_float_def)

text \<open>The theorem of C3 on a store of two experiments and the plain library.\<close>

theorem save_then_open_witness:
  "distinct (map fst saved_store) \<and> lib_faithful plain_lib saved_store
   \<and> (\<exists>rows. save_all_data plain_lib (Chosen True) (init_state\<lparr>experiments := saved_store\<rparr>)
                = Saved rows
          \<and> map_of (experiments (snd (open_data plain_lib (Chosen (Some (map Row rows))) init_state)))
              = map_of saved_store
          \<and> current_experiment (snd (open_data plain_lib (Chosen (Some (map Row rows))) init_state))
              = 3)"
proof -
  let ?st = "init_state\<lparr>experiments := saved_store\<rparr>"
  have h1: "distinct (map fst (experiments ?st))" by (simp add: saved_store_def)
  have h2: "experiments ?st \<noteq> []" by (simp add: saved_store_def)
  have h3: "\<forall>(n, ss)\<in>set (experiments ?st). 1 \<le> n \<and> ss \<noteq> []" by (simp add: saved_store_def)
  have h4: "lib_faithful plain_lib (experiments ?st)" using plain_lib_faithful by simp
  have m: "Max (fst ` set saved_store) + 1 = 3" by (simp add: saved_store_def)
  from save_then_open [OF h1 h2 h3 h4, of init_state] h1 h4 m show ?thesis
    by auto
qed

text \<open>
  C3, as stated, fails: an experiment with an empty sequence writes no row, so after
  the load the store is empty and the current experiment is 1, not 2.
\<close>

theorem save_then_open_empty_sequence:
  "save_all_data plain_lib (Chosen True) (init_state\<lparr>experiments := [(1, [])]\<rparr>)
     = Saved [csv_header]
   \<and> experiments (snd (open_data plain_lib (Chosen (Some (map Row [csv_header])))
        (init_state\<lparr>experiments := [(1, [])]\<rparr>))) = []
   \<and> current_experiment (snd (open_data plain_lib (Chosen (Some (map Row [csv_header])))
        (init_state\<lparr>experiments := [(1, [])]\<rparr>))) = 1"
  by (simp add: save_all_data_def open_data_def)

end
